theory Spec2Isabelle
  imports Main "HOL-Library.Sublist" "HOL-Library.Word"
begin

section \<open>The upload manager of src/index.ts\<close>

text \<open>
  The development follows \<^verbatim>\<open>src/src/index.ts\<close>: the class \<^verbatim>\<open>UploadManager\<close>
  with its constructor, \<^verbatim>\<open>fileFilter\<close>, \<^verbatim>\<open>processImage\<close> and \<^verbatim>\<open>uploadFiles\<close>.
  JavaScript strings are HOL strings, the numbers of a resize ratio and of the image quality
  are integers (the ratios of the interface are pairs of numbers; a ratio with a fraction
  is outside this model), and a \<^verbatim>\<open>Buffer\<close> is a list of bytes.
\<close>

subsection \<open>Strings\<close>

text \<open>\<^verbatim>\<open>String.prototype.split\<close> with a one-character separator: the result is never empty.\<close>

fun split_on :: "char \<Rightarrow> string \<Rightarrow> string list" where
  "split_on c [] = [[]]"
| "split_on c (x # xs) =
     (if x = c then [] # split_on c xs
      else (case split_on c xs of [] \<Rightarrow> [[x]] | s # ss \<Rightarrow> (x # s) # ss))"

text \<open>\<^verbatim>\<open>Array.prototype.pop\<close>, read for its value only: undefined on the empty array.\<close>

definition pop :: "'a list \<Rightarrow> 'a option" where
  "pop xs = (case xs of [] \<Rightarrow> None | _ \<Rightarrow> Some (last xs))"

text \<open>\<^verbatim>\<open>Array.prototype.join\<close>.\<close>

fun join :: "string \<Rightarrow> string list \<Rightarrow> string" where
  "join sep [] = []"
| "join sep [x] = x"
| "join sep (x # y # ys) = x @ sep @ join sep (y # ys)"

text \<open>\<^verbatim>\<open>String.prototype.startsWith\<close>: \<open>startsWith s p\<close> is \<^verbatim>\<open>s.startsWith(p)\<close>.\<close>

fun startsWith :: "string \<Rightarrow> string \<Rightarrow> bool" where
  "startsWith s [] = True"
| "startsWith [] (p # ps) = False"
| "startsWith (c # cs) (p # ps) = (c = p \<and> startsWith cs ps)"

text \<open>
  A number inside a template literal. For an integer below \<open>10^21\<close> in magnitude
  JavaScript prints the decimal digits, with a minus sign when negative.
\<close>

fun dec_nat :: "nat \<Rightarrow> string" where
  "dec_nat n =
     (if n < 10 then [''0123456789'' ! n]
      else dec_nat (n div 10) @ [''0123456789'' ! (n mod 10)])"

declare dec_nat.simps [simp del]

definition num_str :: "int \<Rightarrow> string" where
  "num_str i = (if i < 0 then CHR ''-'' # dec_nat (nat (- i)) else dec_nat (nat i))"

subsection \<open>Regular expressions built by the filter\<close>

text \<open>
  \<^verbatim>\<open>fileFilter\<close> builds \<^verbatim>\<open>new RegExp(`(${extensions.join("|")})`)\<close>: one group around
  the joined allow-list. The model covers the group bodies in which \<^verbatim>\<open>|\<close> is the only
  character with a meaning of its own: the body is then an alternation of literal texts,
  and \<^verbatim>\<open>test\<close> looks for a position of the subject at which one alternative starts.
  A body with any other metacharacter is outside the model, and \<open>group_test\<close> is
  \<open>None\<close> there.
\<close>

definition metachars :: "char list" where
  "metachars = [CHR 0x5C, CHR ''^'', CHR ''$'', CHR ''.'', CHR ''*'', CHR ''+'', CHR ''?'',
                CHR ''('', CHR '')'', CHR ''['', CHR '']'', CHR ''{'', CHR ''}'']"

definition literal_body :: "string \<Rightarrow> bool" where
  "literal_body body = list_all (\<lambda>c. c \<notin> set metachars) body"

fun occurs_in :: "string \<Rightarrow> string \<Rightarrow> bool" where
  "occurs_in alt [] = (alt = [])"
| "occurs_in alt (c # cs) = (startsWith (c # cs) alt \<or> occurs_in alt cs)"

definition group_test :: "string \<Rightarrow> string \<Rightarrow> bool option" where
  "group_test body s =
     (if literal_body body
      then Some (list_ex (\<lambda>alt. occurs_in alt s) (split_on CHR ''|'' body))
      else None)"

subsection \<open>Paths\<close>

text \<open>
  \<^verbatim>\<open>path.resolve\<close> of Node on POSIX: the arguments are taken from the right until one
  is absolute, the working directory standing behind the first of them; empty arguments
  are skipped; the joined text is then normalised (\<^verbatim>\<open>.\<close> and empty segments dropped,
  \<^verbatim>\<open>..\<close> removing the segment before it, and kept only in a relative path that it
  leaves).
\<close>

fun normalize_segs :: "bool \<Rightarrow> string list \<Rightarrow> string list \<Rightarrow> string list" where
  "normalize_segs up acc [] = rev acc"
| "normalize_segs up acc (s # ss) =
     (if s = [] \<or> s = ''.'' then normalize_segs up acc ss
      else if s = ''..'' then
        (case acc of
           [] \<Rightarrow> normalize_segs up (if up then [''..''] else []) ss
         | a # as \<Rightarrow>
             if a = ''..'' then normalize_segs up (''..'' # acc) ss
             else normalize_segs up as ss)
      else normalize_segs up (s # acc) ss)"

text \<open>
  The loop of \<^verbatim>\<open>resolve\<close>, from the last argument to the first and then the working
  directory: the second argument is the reversed argument list, \<open>joined\<close> the text built
  so far.
\<close>

fun resolve_loop :: "string \<Rightarrow> string list \<Rightarrow> string \<Rightarrow> string \<times> bool" where
  "resolve_loop wd [] joined =
     (if wd = [] then (joined, False) else (wd @ ''/'' @ joined, hd wd = CHR ''/''))"
| "resolve_loop wd (p # ps) joined =
     (if p = [] then resolve_loop wd ps joined
      else if hd p = CHR ''/'' then (p @ ''/'' @ joined, True)
      else resolve_loop wd ps (p @ ''/'' @ joined))"

definition resolve :: "string \<Rightarrow> string list \<Rightarrow> string" where
  "resolve wd args =
     (case resolve_loop wd (rev args) [] of
        (joined, absolute) \<Rightarrow>
          (let norm = join ''/'' (normalize_segs (\<not> absolute) [] (split_on CHR ''/'' joined))
           in if absolute then CHR ''/'' # norm
              else if norm = [] then ''.'' else norm))"

subsection \<open>Data\<close>

type_synonym bytes = "8 word list"

text \<open>
  What reaches the completion callback as an error: the object
  \<^verbatim>\<open>{ data: {}, code: 400 }\<close> of the filter (its \<^verbatim>\<open>data\<close> as a list of fields),
  an error of the multipart decoder, or an error thrown by the image library. The model
  keeps the two fields that \<^verbatim>\<open>fileFilter\<close> gives the object; a field that the decoder
  may add to it on its way to the callback is not modelled.
\<close>

datatype error =
    ErrorObject "(string \<times> string) list" int
  | DecoderError string
  | SharpError string

text \<open>The interface \<^verbatim>\<open>UploadOptions\<close> as the caller passes it to the constructor.\<close>

record UploadOptions =
  opt_fileCompression :: "bool option"
  opt_fileResizeRatio :: "(int \<times> int) list option"
  opt_allowExtension :: "string list option"
  opt_imageQuality :: "int option"
  opt_localPath :: string
  opt_basePath :: string

text \<open>The field \<^verbatim>\<open>this.options\<close> of an \<^verbatim>\<open>UploadManager\<close>, filled by the constructor.\<close>

record UploadManager =
  fileCompression :: bool
  fileResizeRatio :: "(int \<times> int) list option"
  allowExtension :: "string list option"
  imageQuality :: int
  basePath :: string
  localPath :: string

text \<open>
  The interface \<^verbatim>\<open>FileData\<close>, and the file object of the decoder, which has the same
  fields and the buffer; \<^verbatim>\<open>filename\<close> and \<^verbatim>\<open>destination\<close> are undefined on a file
  that the memory storage has just decoded.
\<close>

record FileData =
  fieldname :: string
  originalname :: string
  encoding :: string
  mimetype :: string
  filename :: "string option"
  destination :: "string option"

record File = FileData +
  buffer :: bytes
  contenttype :: "string option"

text \<open>
  The surroundings of the module: the working directory of the process, the directory of
  the module (\<^verbatim>\<open>__dirname\<close>), the clock (\<open>unix env k\<close> is what the \<open>k\<close>-th call of
  \<^verbatim>\<open>moment().unix()\<close> returns), and the image library. Each operation of the library
  gives the bytes it produces or the error it throws:
  \<^item> \<open>sharp_resize_jpeg b w h q\<close> is \<^verbatim>\<open>sharp(b).resize({width, height}).jpeg({quality}).toBuffer()\<close>,
  \<^item> \<open>sharp_jpeg b q\<close> is \<^verbatim>\<open>sharp(b).jpeg({quality}).toBuffer()\<close>,
  \<^item> \<open>sharp_resize b w h\<close> is \<^verbatim>\<open>sharp(b).resize({width, height}).toBuffer()\<close>,
  \<^item> \<open>sharp_toFile b p\<close> is \<^verbatim>\<open>sharp(b).toFile(p)\<close>, the result being the bytes
    that the library writes to the file \<open>p\<close>.
\<close>

record env =
  cwd :: string
  dirname :: string
  unix :: "nat \<Rightarrow> int"
  sharp_resize_jpeg :: "bytes \<Rightarrow> int \<Rightarrow> int \<Rightarrow> int \<Rightarrow> error + bytes"
  sharp_jpeg :: "bytes \<Rightarrow> int \<Rightarrow> error + bytes"
  sharp_resize :: "bytes \<Rightarrow> int \<Rightarrow> int \<Rightarrow> error + bytes"
  sharp_toFile :: "bytes \<Rightarrow> string \<Rightarrow> error + bytes"

text \<open>
  What a request changes outside its own values: the number of clock readings made so
  far, and the files written, oldest first.
\<close>

record world =
  reads :: nat
  disk :: "(string \<times> bytes) list"

subsection \<open>The constructor\<close>

text \<open>
  \<^verbatim>\<open>||\<close> replaces a falsy value (undefined, \<^verbatim>\<open>false\<close>, the empty string; an array
  is never falsy), \<^verbatim>\<open>??\<close> replaces undefined only.
\<close>

definition constructor :: "env \<Rightarrow> UploadOptions \<Rightarrow> UploadManager" where
  "constructor e options =
     \<lparr> fileCompression = (case opt_fileCompression options of Some b \<Rightarrow> b | None \<Rightarrow> False),
       fileResizeRatio = opt_fileResizeRatio options,
       allowExtension = opt_allowExtension options,
       imageQuality = (case opt_imageQuality options of Some q \<Rightarrow> q | None \<Rightarrow> 80),
       basePath = (if opt_basePath options = [] then cwd e else opt_basePath options),
       localPath = (if opt_localPath options = [] then ''../public'' else opt_localPath options) \<rparr>"

subsection \<open>The filter\<close>

datatype filter_cb = Accept | Reject error

definition fileFilter :: "UploadManager \<Rightarrow> File \<Rightarrow> filter_cb option" where
  "fileFilter this file =
     (let extensions = (case allowExtension this of
                          Some l \<Rightarrow> l
                        | None \<Rightarrow> [''jpeg'', ''jpg'', ''png'']);
          filetypes = join ''|'' extensions
      in case (group_test filetypes
                 (case pop (split_on CHR ''.'' (originalname file)) of
                    Some ext \<Rightarrow> ext
                  | None \<Rightarrow> '' ''),
               group_test filetypes (mimetype file)) of
           (Some extname, Some mime) \<Rightarrow>
             Some (if mime \<or> extname then Accept else Reject (ErrorObject [] 400))
         | _ \<Rightarrow> None)"

subsection \<open>The image operations\<close>

text \<open>
  Each of \<^verbatim>\<open>compressAndResizeImage\<close>, \<^verbatim>\<open>compressImage\<close> and \<^verbatim>\<open>resizeImage\<close>
  stores the output of the library in \<^verbatim>\<open>file.buffer\<close> and returns it: the model
  returns the file object after the assignment, or the error thrown.
\<close>

definition compressAndResizeImage :: "env \<Rightarrow> File \<Rightarrow> int \<times> int \<Rightarrow> int \<Rightarrow> error + File" where
  "compressAndResizeImage e file sz quality =
     (case sz of (width, height) \<Rightarrow>
        (case sharp_resize_jpeg e (buffer file) width height quality of
           Inl err \<Rightarrow> Inl err
         | Inr output \<Rightarrow> Inr (file\<lparr>buffer := output\<rparr>)))"

definition compressImage :: "env \<Rightarrow> File \<Rightarrow> int \<Rightarrow> error + File" where
  "compressImage e file quality =
     (case sharp_jpeg e (buffer file) quality of
        Inl err \<Rightarrow> Inl err
      | Inr output \<Rightarrow> Inr (file\<lparr>buffer := output\<rparr>))"

definition resizeImage :: "env \<Rightarrow> File \<Rightarrow> int \<times> int \<Rightarrow> error + File" where
  "resizeImage e file sz =
     (case sz of (width, height) \<Rightarrow>
        (case sharp_resize e (buffer file) width height of
           Inl err \<Rightarrow> Inl err
         | Inr output \<Rightarrow> Inr (file\<lparr>buffer := output\<rparr>)))"

subsection \<open>processImage\<close>

text \<open>The object literal pushed onto the result: six fields read from the file object.\<close>

definition file_data :: "File \<Rightarrow> FileData" where
  "file_data file =
     \<lparr> fieldname = fieldname file, originalname = originalname file,
       encoding = encoding file, mimetype = mimetype file,
       filename = filename file, destination = destination file \<rparr>"

text \<open>\<^verbatim>\<open>await sharp(file.buffer).toFile(file.destination)\<close>, the destination being known.\<close>

definition toFile :: "env \<Rightarrow> File \<Rightarrow> string \<Rightarrow> world \<Rightarrow> error + world" where
  "toFile e file dest w =
     (case sharp_toFile e (buffer file) dest of
        Inl err \<Rightarrow> Inl err
      | Inr written \<Rightarrow> Inr (w\<lparr>disk := disk w @ [(dest, written)]\<rparr>))"

text \<open>
  The two loops over \<^verbatim>\<open>this.options.fileResizeRatio\<close> (lines 165-191 and 195-217)
  are the same text but for the operation they await, \<^verbatim>\<open>compressAndResizeImage\<close> in
  the first and \<^verbatim>\<open>resizeImage\<close> in the second: \<open>resize_loop\<close> is that loop with the
  operation as \<open>step\<close>. The loop leaves at the first error; what was written stays.
\<close>

fun resize_loop ::
  "env \<Rightarrow> UploadManager \<Rightarrow> (File \<Rightarrow> int \<times> int \<Rightarrow> error + File) \<Rightarrow> bytes \<Rightarrow> (int \<times> int) list \<Rightarrow>
   File \<Rightarrow> world \<Rightarrow> FileData list \<Rightarrow> (error + FileData list) \<times> File \<times> world" where
  "resize_loop e this step bufferData [] file w uploadDataList = (Inr uploadDataList, file, w)"
| "resize_loop e this step bufferData (sz # sizes) file w uploadDataList =
     (case sz of (width, height) \<Rightarrow>
        (let fileName = fieldname file @ ''_'' @ num_str width @ ''x'' @ num_str height @ ''_''
                          @ num_str (unix e (reads w)) @ ''.jpeg'';
             w1 = w\<lparr>reads := Suc (reads w)\<rparr>;
             dest = resolve (cwd e)
                      [dirname e, resolve (cwd e) [dirname e, localPath this], fileName];
             file1 = file\<lparr>filename := Some fileName, destination := Some dest,
                          buffer := bufferData\<rparr>
         in case step file1 sz of
              Inl err \<Rightarrow> (Inl err, file1, w1)
            | Inr file2 \<Rightarrow>
                (case toFile e file2 dest w1 of
                   Inl err \<Rightarrow> (Inl err, file2, w1)
                 | Inr w2 \<Rightarrow>
                     resize_loop e this step bufferData sizes file2 w2
                       (uploadDataList @ [file_data file2]))))"

definition processImage ::
  "env \<Rightarrow> UploadManager \<Rightarrow> File \<Rightarrow> world \<Rightarrow> (error + FileData list) \<times> File \<times> world" where
  "processImage e this file0 w0 =
     (let name = fieldname file0 @ ''_'' @ num_str (unix e (reads w0)) @ ''.jpeg'';
          w = w0\<lparr>reads := Suc (reads w0)\<rparr>;
          dest = resolve (cwd e) [basePath this, localPath this, name];
          file = file0\<lparr>filename := Some name, destination := Some dest\<rparr>
      in case (fileCompression this, fileResizeRatio this) of
           (True, Some sizes) \<Rightarrow>
             resize_loop e this
               (\<lambda>f sz. compressAndResizeImage e f sz (imageQuality this))
               (buffer file) sizes file w []
         | (False, Some sizes) \<Rightarrow>
             resize_loop e this (resizeImage e) (buffer file) sizes file w []
         | (True, None) \<Rightarrow>
             (case compressImage e file (imageQuality this) of
                Inl err \<Rightarrow> (Inl err, file, w)
              | Inr file1 \<Rightarrow>
                  (case toFile e file1 dest w of
                     Inl err \<Rightarrow> (Inl err, file1, w)
                   | Inr w1 \<Rightarrow> (Inr [file_data file1], file1, w1)))
         | (False, None) \<Rightarrow>
             (case toFile e file dest w of
                Inl err \<Rightarrow> (Inl err, file, w)
              | Inr w1 \<Rightarrow> (Inr [file_data file], file, w1)))"

subsection \<open>uploadFiles\<close>

text \<open>
  A request is the sequence of file parts of its multipart body, in the order of the
  body, and the error of the decoder, if the body is one it fails on after these parts.
  \<^verbatim>\<open>this.upload.any()\<close> hands each part to \<^verbatim>\<open>fileFilter\<close> as it arrives: a part
  the filter accepts is kept in memory and becomes an element of \<^verbatim>\<open>req.files\<close>, and
  the first error of the filter ends the decoding with that error.
\<close>

record request =
  parts :: "File list"
  broken :: "error option"

fun upload_any ::
  "UploadManager \<Rightarrow> File list \<Rightarrow> error option \<Rightarrow> File list \<Rightarrow> (error + File list) option" where
  "upload_any this [] brk files = Some (case brk of None \<Rightarrow> Inr files | Some err \<Rightarrow> Inl err)"
| "upload_any this (part # rest) brk files =
     (case fileFilter this part of
        None \<Rightarrow> None
      | Some Accept \<Rightarrow> upload_any this rest brk (files @ [part])
      | Some (Reject err) \<Rightarrow> Some (Inl err))"

text \<open>
  The arguments of the completion callback: \<^verbatim>\<open>callback(err)\<close>, or
  \<^verbatim>\<open>callback(null, { data, code })\<close>.
\<close>

datatype callback_args = Failure error | Success "FileData list" int

text \<open>
  The loop over \<^verbatim>\<open>req.files\<close>: \<open>seen\<close> holds the file objects already gone over, as
  the loop left them, and \<open>uploadedImageDataArr\<close> the records collected.
\<close>

fun files_loop ::
  "env \<Rightarrow> UploadManager \<Rightarrow> File list \<Rightarrow> File list \<Rightarrow> world \<Rightarrow> FileData list \<Rightarrow>
   (error + FileData list) \<times> File list \<times> world" where
  "files_loop e this [] seen w uploadedImageDataArr = (Inr uploadedImageDataArr, seen, w)"
| "files_loop e this (file # rest) seen w uploadedImageDataArr =
     (if startsWith (mimetype file) ''image/'' then
        (case processImage e this file w of
           (Inl err, file1, w1) \<Rightarrow> (Inl err, seen @ [file1], w1)
         | (Inr uploadedImageData, file1, w1) \<Rightarrow>
             files_loop e this rest (seen @ [file1]) w1
               (uploadedImageDataArr @ uploadedImageData))
      else
        (let file1 = file\<lparr>
               filename := Some (fieldname file @ ''_'' @ num_str (unix e (reads w)) @ ''.''
                 @ (case pop (split_on CHR ''.'' (originalname file)) of
                      Some ext \<Rightarrow> ext
                    | None \<Rightarrow> ''undefined'')),
               contenttype := Some (mimetype file)\<rparr>
         in files_loop e this rest (seen @ [file1]) (w\<lparr>reads := Suc (reads w)\<rparr>)
              uploadedImageDataArr))"

text \<open>
  What a call of \<^verbatim>\<open>uploadFiles\<close> leaves: the arguments it gave to the callback, the
  file objects that its loop went over, and the world. The result is \<open>None\<close> when the
  allow-list is outside the modelled regular expressions.
\<close>

record outcome =
  callback :: callback_args
  processed :: "File list"
  after :: world

definition uploadFiles :: "env \<Rightarrow> UploadManager \<Rightarrow> request \<Rightarrow> world \<Rightarrow> outcome option" where
  "uploadFiles e this req w =
     (case upload_any this (parts req) (broken req) [] of
        None \<Rightarrow> None
      | Some (Inl err) \<Rightarrow> Some \<lparr> callback = Failure err, processed = [], after = w \<rparr>
      | Some (Inr files) \<Rightarrow>
          (case files_loop e this files [] w [] of
             (Inl err, seen, w1) \<Rightarrow>
               Some \<lparr> callback = Failure err, processed = seen, after = w1 \<rparr>
           | (Inr uploadedImageDataArr, seen, w1) \<Rightarrow>
               Some \<lparr> callback = Success uploadedImageDataArr 200, processed = seen,
                      after = w1 \<rparr>))"

subsection \<open>The records of one image, as values\<close>

text \<open>
  The record that the loop over the ratios pushes for the ratio \<open>sz\<close> when the clock reads
  \<open>t\<close>, and the record of the branches without a ratio.
\<close>

definition sized_record :: "env \<Rightarrow> UploadManager \<Rightarrow> File \<Rightarrow> int \<times> int \<Rightarrow> int \<Rightarrow> FileData" where
  "sized_record e this file sz t =
     (let name = fieldname file @ ''_'' @ num_str (fst sz) @ ''x'' @ num_str (snd sz) @ ''_''
                   @ num_str t @ ''.jpeg''
      in \<lparr> fieldname = fieldname file, originalname = originalname file,
            encoding = encoding file, mimetype = mimetype file,
            filename = Some name,
            destination = Some (resolve (cwd e)
              [dirname e, resolve (cwd e) [dirname e, localPath this], name]) \<rparr>)"

definition plain_record :: "env \<Rightarrow> UploadManager \<Rightarrow> File \<Rightarrow> int \<Rightarrow> FileData" where
  "plain_record e this file t =
     (let name = fieldname file @ ''_'' @ num_str t @ ''.jpeg''
      in \<lparr> fieldname = fieldname file, originalname = originalname file,
            encoding = encoding file, mimetype = mimetype file,
            filename = Some name,
            destination = Some (resolve (cwd e) [basePath this, localPath this, name]) \<rparr>)"

text \<open>
  An operation of the loop that changes the buffer only, so that the six fields of the
  record are those the loop assigned; and an image library none of whose operations fails.
\<close>

definition keeps_fields :: "(File \<Rightarrow> int \<times> int \<Rightarrow> error + File) \<Rightarrow> bool" where
  "keeps_fields step = (\<forall>f sz f'. step f sz = Inr f' \<longrightarrow> file_data f' = file_data f)"

definition codec_total :: "env \<Rightarrow> bool" where
  "codec_total e =
     ((\<forall>b w h q. \<exists>out. sharp_resize_jpeg e b w h q = Inr out) \<and>
      (\<forall>b q. \<exists>out. sharp_jpeg e b q = Inr out) \<and>
      (\<forall>b w h. \<exists>out. sharp_resize e b w h = Inr out) \<and>
      (\<forall>b p. \<exists>out. sharp_toFile e b p = Inr out))"

text \<open>
  The records \<open>rs\<close> are those of the image \<open>file\<close>: one for each configured ratio, in the
  order of the ratios, each for some reading of the clock; or the single record of the
  branches without ratios.
\<close>

definition derivatives_of :: "env \<Rightarrow> UploadManager \<Rightarrow> File \<Rightarrow> FileData list \<Rightarrow> bool" where
  "derivatives_of e this file rs =
     (case fileResizeRatio this of
        Some sizes \<Rightarrow> list_all2 (\<lambda>sz r. \<exists>t. r = sized_record e this file sz t) sizes rs
      | None \<Rightarrow> \<exists>t. rs = [plain_record e this file t])"

text \<open>
  What the loop of \<^verbatim>\<open>uploadFiles\<close> does to the file object of a part that is not an
  image: the name and the content type it assigns, for some reading of the clock.
\<close>

definition passthrough_named :: "env \<Rightarrow> File \<Rightarrow> File \<Rightarrow> bool" where
  "passthrough_named e f f' =
     (\<exists>k. f' = f\<lparr>filename := Some (fieldname f @ ''_'' @ num_str (unix e k) @ ''.''
                       @ last (split_on CHR ''.'' (originalname f))),
                  contenttype := Some (mimetype f)\<rparr>)"

subsection \<open>The filter in the words of the specification\<close>

text \<open>
  The specification (section 4.1) has the filter accept a part when an entry of the
  allow-list is a substring of the lowercase file extension or of the MIME string.
  \<open>spec_accepts\<close> is that sentence, for comparison with \<open>fileFilter\<close>.
\<close>

definition toLowerCase :: "string \<Rightarrow> string" where
  "toLowerCase s =
     map (\<lambda>c. case map_of (zip ''ABCDEFGHIJKLMNOPQRSTUVWXYZ'' ''abcdefghijklmnopqrstuvwxyz'') c of
                Some l \<Rightarrow> l
              | None \<Rightarrow> c) s"

definition spec_accepts :: "string list option \<Rightarrow> File \<Rightarrow> bool" where
  "spec_accepts allow file =
     (let allowList = (case allow of Some l \<Rightarrow> l | None \<Rightarrow> [''jpeg'', ''jpg'', ''png''])
      in list_ex (\<lambda>entry.
           occurs_in entry (toLowerCase (last (split_on CHR ''.'' (originalname file)))) \<or>
           occurs_in entry (mimetype file)) allowList)"

subsection \<open>A concrete setting\<close>

text \<open>
  A process in \<^verbatim>\<open>/srv/app\<close> with the module under \<^verbatim>\<open>node_modules\<close>, a clock that
  advances by a second at each reading, and an image library that never fails, leaves
  the pixels of a resized buffer alone, and encodes every JPEG as the two markers
  of an empty one.
\<close>

definition example_env :: env where
  "example_env =
     \<lparr> cwd = ''/srv/app'',
       dirname = ''/srv/app/node_modules/smart-optimizer/dist'',
       unix = (\<lambda>k. 1700000000 + int k),
       sharp_resize_jpeg = (\<lambda>b w h q. Inr [0xFF, 0xD8, 0xFF, 0xD9]),
       sharp_jpeg = (\<lambda>b q. Inr [0xFF, 0xD8, 0xFF, 0xD9]),
       sharp_resize = (\<lambda>b w h. Inr b),
       sharp_toFile = (\<lambda>b p. Inr [0xFF, 0xD8, 0xFF, 0xD9]) \<rparr>"

definition example_world :: world where
  "example_world = \<lparr> reads = 0, disk = [] \<rparr>"

text \<open>The options of the README, with a base path; and the same without ratios and compression.\<close>

definition example_options :: UploadOptions where
  "example_options =
     \<lparr> opt_fileCompression = Some True,
       opt_fileResizeRatio = Some [(100, 100), (200, 200)],
       opt_allowExtension = Some [''jpeg'', ''jpg'', ''png''],
       opt_imageQuality = Some 70,
       opt_localPath = ''public/img'',
       opt_basePath = ''/data'' \<rparr>"

definition plain_options :: UploadOptions where
  "plain_options =
     \<lparr> opt_fileCompression = None,
       opt_fileResizeRatio = None,
       opt_allowExtension = Some [''jpeg'', ''jpg'', ''png'', ''pdf''],
       opt_imageQuality = None,
       opt_localPath = ''public/img'',
       opt_basePath = ''/data'' \<rparr>"

text \<open>A PNG image in the field \<^verbatim>\<open>avatar\<close>, a PDF in the field \<^verbatim>\<open>doc\<close>, and a part
  that no entry of these allow-lists matches.\<close>

definition example_png :: File where
  "example_png =
     \<lparr> fieldname = ''avatar'', originalname = ''me.png'', encoding = ''7bit'',
       mimetype = ''image/png'', filename = None, destination = None,
       buffer = [0x89, 0x50, 0x4E, 0x47], contenttype = None \<rparr>"

definition example_pdf :: File where
  "example_pdf =
     \<lparr> fieldname = ''doc'', originalname = ''report.pdf'', encoding = ''7bit'',
       mimetype = ''application/pdf'', filename = None, destination = None,
       buffer = [0x25, 0x50, 0x44, 0x46], contenttype = None \<rparr>"

definition example_exe :: File where
  "example_exe =
     \<lparr> fieldname = ''tool'', originalname = ''setup.exe'', encoding = ''7bit'',
       mimetype = ''application/octet-stream'', filename = None, destination = None,
       buffer = [0x4D, 0x5A], contenttype = None \<rparr>"

text \<open>A photograph whose name is in capitals, sent with a generic content type.\<close>

definition example_upper :: File where
  "example_upper =
     \<lparr> fieldname = ''photo'', originalname = ''HOLIDAY.JPG'', encoding = ''7bit'',
       mimetype = ''application/octet-stream'', filename = None, destination = None,
       buffer = [0xFF, 0xD8, 0xFF, 0xD9], contenttype = None \<rparr>"

text \<open>
  A request with two images and a PDF between them, and options that let all three
  pass; and a request whose second part no entry of the README's list matches.
\<close>

definition mixed_options :: UploadOptions where
  "mixed_options = example_options\<lparr>opt_allowExtension := Some [''png'', ''pdf'']\<rparr>"

definition example_request :: request where
  "example_request =
     \<lparr> parts = [example_png, example_pdf, example_png\<lparr>fieldname := ''banner''\<rparr>],
       broken = None \<rparr>"

definition rejected_request :: request where
  "rejected_request = \<lparr> parts = [example_png, example_exe], broken = None \<rparr>"

subsection \<open>The image library and the extension of the destination\<close>

text \<open>
  \<^verbatim>\<open>sharp(input).toFile(path)\<close> decodes the input and writes it in the format that the
  extension of the path names. A JPEG stream begins with the two bytes of its start
  marker, a PNG stream with the eight bytes of its signature. \<open>jpeg_by_extension\<close> is
  the part of that behaviour the pass-through branch depends on: whatever the library
  writes to a path ending in \<^verbatim>\<open>.jpeg\<close> begins with the start marker of a JPEG stream.
\<close>

definition png_signature :: bytes where
  "png_signature = [0x89, 0x50, 0x4E, 0x47, 0x0D, 0x0A, 0x1A, 0x0A]"

definition jpeg_soi :: bytes where
  "jpeg_soi = [0xFF, 0xD8]"

definition jpeg_by_extension :: "env \<Rightarrow> bool" where
  "jpeg_by_extension e =
     (\<forall>b p out. sharp_toFile e b p = Inr out \<longrightarrow> suffix ''.jpeg'' p \<longrightarrow> prefix jpeg_soi out)"

text \<open>
  The setting of the examples with a library that looks at its input: it refuses a buffer
  that has neither signature, and writes to a path ending in \<^verbatim>\<open>.jpeg\<close> a JPEG stream,
  of which the model keeps the start and the end marker.
\<close>

definition decoding_env :: env where
  "decoding_env =
     example_env\<lparr>sharp_toFile :=
       (\<lambda>b p. if prefix png_signature b \<or> prefix jpeg_soi b
              then (if suffix ''.jpeg'' p then Inr (jpeg_soi @ [0xFF, 0xD9])
                    else Inl (SharpError ''Unsupported output format''))
              else Inl (SharpError ''Input buffer contains unsupported image format''))\<rparr>"

text \<open>A PNG file of one red pixel, all of its 69 bytes, in the field \<^verbatim>\<open>avatar\<close>.\<close>

definition pixel_png :: File where
  "pixel_png =
     \<lparr> fieldname = ''avatar'', originalname = ''pixel.png'', encoding = ''7bit'',
       mimetype = ''image/png'', filename = None, destination = None,
       buffer =
         [0x89, 0x50, 0x4E, 0x47, 0x0D, 0x0A, 0x1A, 0x0A,
          0x00, 0x00, 0x00, 0x0D, 0x49, 0x48, 0x44, 0x52,
          0x00, 0x00, 0x00, 0x01, 0x00, 0x00, 0x00, 0x01, 0x08, 0x02, 0x00, 0x00, 0x00,
          0x90, 0x77, 0x53, 0xDE,
          0x00, 0x00, 0x00, 0x0C, 0x49, 0x44, 0x41, 0x54,
          0x78, 0xDA, 0x63, 0xF8, 0xCF, 0xC0, 0x00, 0x00, 0x03, 0x01, 0x01, 0x00,
          0xF7, 0x03, 0x41, 0x43,
          0x00, 0x00, 0x00, 0x00, 0x49, 0x45, 0x4E, 0x44, 0xAE, 0x42, 0x60, 0x82],
       contenttype = None \<rparr>"

section \<open>Properties\<close>

subsection \<open>Strings and the filter\<close>

lemma startsWith_prefix: "startsWith s p = prefix p s"
  by (induction s p rule: startsWith.induct) auto

lemma occurs_in_sublist: "occurs_in alt s = sublist alt s"
  by (induction s) (auto simp: startsWith_prefix sublist_Cons_right)

lemma split_on_nonempty: "split_on c s \<noteq> []"
  by (induction s) (auto split: list.splits)

lemma split_on_absent: "c \<notin> set s \<Longrightarrow> split_on c s = [s]"
  by (induction s) auto

lemma split_on_append: "c \<notin> set s \<Longrightarrow> split_on c (s @ c # t) = s # split_on c t"
  by (induction s) auto

lemma split_on_join:
  "es \<noteq> [] \<Longrightarrow> \<forall>x\<in>set es. c \<notin> set x \<Longrightarrow> split_on c (join [c] es) = es"
  by (induction "[c]" es rule: join.induct) (auto simp: split_on_absent split_on_append)

lemma literal_body_append: "literal_body (a @ b) = (literal_body a \<and> literal_body b)"
  by (simp add: literal_body_def)

lemma literal_body_Cons: "literal_body (c # s) = (c \<notin> set metachars \<and> literal_body s)"
  by (simp add: literal_body_def)

lemma bar_not_meta: "CHR ''|'' \<notin> set metachars"
  by (simp add: metachars_def)

lemma literal_body_join:
  "\<forall>x\<in>set es. literal_body x \<Longrightarrow> literal_body (join ''|'' es)"
  by (induction "''|''" es rule: join.induct)
     (auto simp: literal_body_append literal_body_Cons bar_not_meta literal_body_def)

lemma pop_split_on: "pop (split_on c s) = Some (last (split_on c s))"
  using split_on_nonempty [of c s] by (auto simp: pop_def split: list.splits)

lemma group_test_entries:
  assumes "es \<noteq> []" and "\<forall>x\<in>set es. literal_body x \<and> CHR ''|'' \<notin> set x"
  shows "group_test (join ''|'' es) s = Some (\<exists>x\<in>set es. sublist x s)"
proof -
  have "literal_body (join ''|'' es)"
    using assms(2) by (simp add: literal_body_join)
  moreover have "split_on CHR ''|'' (join ''|'' es) = es"
    using assms by (simp add: split_on_join)
  ultimately show ?thesis
    by (simp add: group_test_def list_ex_iff occurs_in_sublist)
qed

subsection \<open>The records of one image\<close>

lemma keeps_fieldsD: "keeps_fields step \<Longrightarrow> step f sz = Inr f' \<Longrightarrow> file_data f' = file_data f"
  unfolding keeps_fields_def by blast

lemma file_data_sized:
  "file_data (file\<lparr>filename := Some (fieldname file @ ''_'' @ num_str width @ ''x'' @ num_str height
       @ ''_'' @ num_str t @ ''.jpeg''),
     destination := Some (resolve (cwd e) [dirname e, resolve (cwd e) [dirname e, localPath this],
       fieldname file @ ''_'' @ num_str width @ ''x'' @ num_str height @ ''_'' @ num_str t @ ''.jpeg'']),
     buffer := b\<rparr>) = sized_record e this file (width, height) t"
  by (simp add: file_data_def sized_record_def Let_def)

lemma sized_record_cong:
  "file_data f' = file_data f \<Longrightarrow> sized_record e this f' = sized_record e this f"
  by (auto simp: file_data_def sized_record_def fun_eq_iff Let_def)

lemma resize_loop_records:
  assumes "keeps_fields step"
    and "resize_loop e this step buf sizes file w acc = (Inr recs, file', w')"
  shows "recs = acc @ map (\<lambda>(sz, k). sized_record e this file sz (unix e k))
                        (zip sizes [reads w ..< reads w + length sizes])"
  using assms(2)
proof (induction sizes arbitrary: "file" w acc)
  case Nil
  then show ?case by simp
next
  case (Cons sz sizes)
  obtain width height where sz: "sz = (width, height)" by (cases sz)
  let ?name = "fieldname file @ ''_'' @ num_str width @ ''x'' @ num_str height @ ''_''
                 @ num_str (unix e (reads w)) @ ''.jpeg''"
  let ?dest = "resolve (cwd e) [dirname e, resolve (cwd e) [dirname e, localPath this], ?name]"
  let ?file1 = "file\<lparr>filename := Some ?name, destination := Some ?dest, buffer := buf\<rparr>"
  let ?w1 = "w\<lparr>reads := Suc (reads w)\<rparr>"
  from Cons.prems obtain file2 w2 where
    step: "step ?file1 sz = Inr file2" and
    wr: "toFile e file2 ?dest ?w1 = Inr w2" and
    rest: "resize_loop e this step buf sizes file2 w2 (acc @ [file_data file2]) = (Inr recs, file', w')"
    by (auto simp: sz Let_def split: sum.splits)
  have keep: "file_data file2 = file_data ?file1"
    using assms(1) step by (rule keeps_fieldsD)
  have fd: "file_data file2 = sized_record e this file sz (unix e (reads w))"
    unfolding keep sz by (rule file_data_sized)
  have r2: "reads w2 = Suc (reads w)"
    using wr by (auto simp: toFile_def split: sum.splits)
  have same: "sized_record e this file2 = sized_record e this file"
  proof -
    have "sized_record e this file2 = sized_record e this ?file1"
      using keep by (rule sized_record_cong)
    then show ?thesis by (simp add: sized_record_def fun_eq_iff Let_def)
  qed
  have "recs = (acc @ [file_data file2]) @ map (\<lambda>(sz, k). sized_record e this file2 sz (unix e k))
                        (zip sizes [reads w2 ..< reads w2 + length sizes])"
    by (rule Cons.IH [OF rest])
  moreover have "[reads w..<Suc (reads w + length sizes)]
                   = reads w # [Suc (reads w)..<Suc (reads w + length sizes)]"
    by (rule upt_conv_Cons) simp
  ultimately show ?case
    by (simp add: fd r2 same del: upt_Suc)
qed

lemma keeps_resizeImage: "keeps_fields (resizeImage e)"
  by (auto simp: keeps_fields_def resizeImage_def file_data_def split: sum.splits)

lemma keeps_compressAndResizeImage: "keeps_fields (\<lambda>f sz. compressAndResizeImage e f sz q)"
  by (auto simp: keeps_fields_def compressAndResizeImage_def file_data_def split: sum.splits)

lemma sized_record_named:
  "sized_record e this (f\<lparr>filename := n, destination := d\<rparr>) = sized_record e this f"
  by (simp add: sized_record_def fun_eq_iff Let_def)

lemma processImage_records:
  assumes "fst (processImage e this file w) = Inr recs"
  shows "recs = (case fileResizeRatio this of
                   Some sizes \<Rightarrow>
                     map (\<lambda>(sz, k). sized_record e this file sz (unix e k))
                       (zip sizes [Suc (reads w) ..< Suc (reads w) + length sizes])
                 | None \<Rightarrow> [plain_record e this file (unix e (reads w))])"
proof (cases "fileResizeRatio this")
  case None
  show ?thesis
  proof (cases "fileCompression this")
    case True
    with None assms show ?thesis
      by (auto simp: processImage_def Let_def compressImage_def toFile_def file_data_def
            plain_record_def split: sum.splits)
  next
    case False
    with None assms show ?thesis
      by (auto simp: processImage_def Let_def toFile_def file_data_def plain_record_def
            split: sum.splits)
  qed
next
  case (Some sizes)
  let ?name = "fieldname file @ ''_'' @ num_str (unix e (reads w)) @ ''.jpeg''"
  let ?file = "file\<lparr>filename := Some ?name,
                 destination := Some (resolve (cwd e) [basePath this, localPath this, ?name])\<rparr>"
  let ?w = "w\<lparr>reads := Suc (reads w)\<rparr>"
  define step where
    "step = (if fileCompression this
             then (\<lambda>f sz. compressAndResizeImage e f sz (imageQuality this))
             else resizeImage e)"
  have k: "keeps_fields step"
    by (simp add: step_def keeps_resizeImage keeps_compressAndResizeImage)
  have "processImage e this file w = resize_loop e this step (buffer file) sizes ?file ?w []"
    by (simp add: processImage_def Let_def Some step_def)
  with assms obtain file' w' where
    "resize_loop e this step (buffer file) sizes ?file ?w [] = (Inr recs, file', w')"
    by (cases "resize_loop e this step (buffer file) sizes ?file ?w []") auto
  from resize_loop_records [OF k this] show ?thesis
    by (simp add: Some sized_record_named)
qed

lemma resize_loop_total:
  assumes "\<And>f sz. \<exists>f'. step f sz = Inr f'"
    and "\<And>b p. \<exists>out. sharp_toFile e b p = Inr out"
  shows "\<exists>recs file' w'. resize_loop e this step buf sizes file w acc = (Inr recs, file', w')"
proof (induction sizes arbitrary: "file" w acc)
  case Nil
  show ?case by simp
next
  case (Cons sz sizes)
  obtain width height where sz: "sz = (width, height)" by (cases sz)
  let ?name = "fieldname file @ ''_'' @ num_str width @ ''x'' @ num_str height @ ''_''
                 @ num_str (unix e (reads w)) @ ''.jpeg''"
  let ?dest = "resolve (cwd e) [dirname e, resolve (cwd e) [dirname e, localPath this], ?name]"
  let ?file1 = "file\<lparr>filename := Some ?name, destination := Some ?dest, buffer := buf\<rparr>"
  let ?w1 = "w\<lparr>reads := Suc (reads w)\<rparr>"
  obtain file2 where s: "step ?file1 sz = Inr file2"
    using assms(1) by blast
  obtain out where t: "sharp_toFile e (buffer file2) ?dest = Inr out"
    using assms(2) by blast
  show ?case
    using Cons.IH [of file2 "?w1\<lparr>disk := disk ?w1 @ [(?dest, out)]\<rparr>" "acc @ [file_data file2]"] s t
    by (simp add: sz Let_def toFile_def)
qed

lemma processImage_total:
  assumes "codec_total e"
  shows "\<exists>recs. fst (processImage e this file w) = Inr recs"
proof -
  have tf: "\<And>b p. \<exists>out. sharp_toFile e b p = Inr out"
    using assms by (simp add: codec_total_def)
  have s1: "\<And>f sz. \<exists>f'. resizeImage e f sz = Inr f'"
  proof -
    fix f :: File and sz :: "int \<times> int"
    obtain out where "sharp_resize e (buffer f) (fst sz) (snd sz) = Inr out"
      using assms unfolding codec_total_def by blast
    then show "\<exists>f'. resizeImage e f sz = Inr f'"
      by (simp add: resizeImage_def split_beta)
  qed
  have s2: "\<And>f sz. \<exists>f'. compressAndResizeImage e f sz (imageQuality this) = Inr f'"
  proof -
    fix f :: File and sz :: "int \<times> int"
    obtain out where "sharp_resize_jpeg e (buffer f) (fst sz) (snd sz) (imageQuality this) = Inr out"
      using assms unfolding codec_total_def by blast
    then show "\<exists>f'. compressAndResizeImage e f sz (imageQuality this) = Inr f'"
      by (simp add: compressAndResizeImage_def split_beta)
  qed
  show ?thesis
  proof (cases "fileResizeRatio this")
    case (Some sizes)
    show ?thesis
    proof (cases "fileCompression this")
      case True
      from resize_loop_total [of "\<lambda>f sz. compressAndResizeImage e f sz (imageQuality this)" e, OF s2 tf]
      show ?thesis
        by (simp add: processImage_def Let_def Some True) (metis fst_conv)
    next
      case False
      from resize_loop_total [of "resizeImage e" e, OF s1 tf]
      show ?thesis
        by (simp add: processImage_def Let_def Some False) (metis fst_conv)
    qed
  next
    case None
    let ?name = "fieldname file @ ''_'' @ num_str (unix e (reads w)) @ ''.jpeg''"
    let ?dest = "resolve (cwd e) [basePath this, localPath this, ?name]"
    show ?thesis
    proof (cases "fileCompression this")
      case True
      obtain out where c: "sharp_jpeg e (buffer file) (imageQuality this) = Inr out"
        using assms unfolding codec_total_def by blast
      obtain wr where "sharp_toFile e out ?dest = Inr wr"
        using tf by blast
      with c show ?thesis
        by (simp add: processImage_def Let_def None True compressImage_def toFile_def)
    next
      case False
      obtain wr where "sharp_toFile e (buffer file) ?dest = Inr wr"
        using tf by blast
      then show ?thesis
        by (simp add: processImage_def Let_def None False toFile_def)
    qed
  qed
qed

subsection \<open>The destination keeps the extension of the name\<close>

lemma split_on_sep: "split_on c (xs @ c # ys) = split_on c xs @ split_on c ys"
proof (induction xs)
  case Nil
  show ?case by simp
next
  case (Cons x xs)
  obtain s ss where s: "split_on c xs = s # ss"
    using split_on_nonempty [of c xs] by (cases "split_on c xs") auto
  with Cons show ?case by simp
qed

lemma split_on_tail:
  "c \<notin> set t \<Longrightarrow> split_on c (s @ t) = butlast (split_on c s) @ [last (split_on c s) @ t]"
proof (induction s)
  case Nil
  then show ?case by (simp add: split_on_absent)
next
  case (Cons x s)
  obtain a as where a: "split_on c s = a # as"
    using split_on_nonempty [of c s] by (cases "split_on c s") auto
  with Cons show ?case
    by (cases as) (auto simp: split_on_nonempty)
qed

lemma resolve_loop_joined:
  "resolve_loop wd ps joined = (j, a) \<Longrightarrow> \<exists>pre. j = pre @ joined"
proof (induction ps arbitrary: joined)
  case Nil
  then show ?case by (auto split: if_splits)
next
  case (Cons p ps)
  show ?case
  proof (cases "p = []")
    case True
    with Cons show ?thesis by simp
  next
    case False
    show ?thesis
    proof (cases "hd p = CHR ''/''")
      case True
      with False Cons.prems show ?thesis by auto
    next
      case h: False
      with False Cons.prems have "resolve_loop wd ps (p @ ''/'' @ joined) = (j, a)"
        by simp
      from Cons.IH [OF this] obtain pre where "j = pre @ p @ ''/'' @ joined" by blast
      then have "j = (pre @ p @ ''/'') @ joined" by simp
      then show ?thesis by blast
    qed
  qed
qed

lemma normalize_segs_append:
  "normalize_segs up acc (xs @ ys) = normalize_segs up (rev (normalize_segs up acc xs)) ys"
  by (induction xs arbitrary: acc) (auto split: list.splits)

lemma join_snoc: "join sep (xs @ [y]) = (if xs = [] then y else join sep xs @ sep @ y)"
  by (induction sep xs rule: join.induct) auto

lemma resolve_keeps_extension:
  assumes "suffix ''.jpeg'' name"
  shows "suffix ''.jpeg'' (resolve wd (args @ [name]))"
proof -
  from assms obtain n0 where n0: "name = n0 @ ''.jpeg''"
    by (auto simp: suffix_def)
  obtain j a where ja: "resolve_loop wd (rev (args @ [name])) [] = (j, a)"
    by (cases "resolve_loop wd (rev (args @ [name])) []") auto
  have "\<exists>pre. j = pre @ name @ ''/''"
  proof (cases "hd name = CHR ''/''")
    case True
    with ja n0 have "j = [] @ name @ ''/''" by auto
    then show ?thesis by blast
  next
    case False
    with ja n0 have "resolve_loop wd (rev args) (name @ ''/'') = (j, a)"
      by auto
    from resolve_loop_joined [OF this] show ?thesis by simp
  qed
  then obtain pre where j: "j = pre @ name @ ''/''" by blast
  let ?segs = "split_on CHR ''/'' (pre @ n0)"
  let ?L = "last ?segs @ ''.jpeg''"
  have "split_on CHR ''/'' j = split_on CHR ''/'' ((pre @ n0) @ ''.jpeg'') @ [[]]"
    using split_on_sep [of "CHR ''/''" "(pre @ n0) @ ''.jpeg''" "[]"] by (simp add: j n0)
  also have "split_on CHR ''/'' ((pre @ n0) @ ''.jpeg'') = butlast ?segs @ [?L]"
    by (rule split_on_tail) simp
  finally have segs: "split_on CHR ''/'' j = butlast ?segs @ [?L, []]"
    by simp
  have L: "?L \<noteq> []" "?L \<noteq> ''.''" "?L \<noteq> ''..''"
    by (auto simp: append_eq_Cons_conv)
  define acc where "acc = rev (normalize_segs (\<not> a) [] (butlast ?segs))"
  have "normalize_segs (\<not> a) [] (split_on CHR ''/'' j) = rev acc @ [?L]"
    unfolding segs normalize_segs_append [of _ _ "butlast ?segs"] acc_def [symmetric]
    using L by simp
  then have norm: "join ''/'' (normalize_segs (\<not> a) [] (split_on CHR ''/'' j))
                     = (if acc = [] then ?L else join ''/'' (rev acc) @ ''/'' @ ?L)"
    by (simp add: join_snoc)
  then have "suffix ''.jpeg'' (join ''/'' (normalize_segs (\<not> a) [] (split_on CHR ''/'' j)))"
    by (auto simp: suffix_def)
  moreover have "join ''/'' (normalize_segs (\<not> a) [] (split_on CHR ''/'' j)) \<noteq> []"
    using norm by auto
  moreover have "resolve wd (args @ [name]) =
      (let norm = join ''/'' (normalize_segs (\<not> a) [] (split_on CHR ''/'' j))
       in if a then CHR ''/'' # norm else if norm = [] then ''.'' else norm)"
    unfolding resolve_def ja by simp
  ultimately show ?thesis
    by (cases a) (simp_all add: Let_def suffix_ConsI)
qed

lemma passthrough_dest_jpeg:
  "suffix ''.jpeg'' (resolve wd [base, loc, field @ ''_'' @ num_str t @ ''.jpeg''])"
  using resolve_keeps_extension [of "field @ ''_'' @ num_str t @ ''.jpeg''" wd "[base, loc]"]
  by (simp add: suffix_def)

subsection \<open>The decoder and the loop over the files\<close>





lemma upload_any_files:
  "upload_any this ps brk acc = Some (Inr files) \<Longrightarrow> files = acc @ ps"
proof (induction ps arbitrary: acc)
  case Nil
  then show ?case by (simp split: option.splits)
next
  case (Cons q ps)
  from Cons.prems have "upload_any this ps brk (acc @ [q]) = Some (Inr files)"
    by (auto split: option.splits filter_cb.splits)
  from Cons.IH [OF this] show ?case by simp
qed

lemma processImage_derivatives:
  assumes "processImage e this f w = (Inr rs, f1, w1)"
  shows "derivatives_of e this f rs"
proof -
  have "fst (processImage e this f w) = Inr rs"
    using assms by simp
  from processImage_records [OF this] show ?thesis
    by (cases "fileResizeRatio this")
       (auto simp: derivatives_of_def list_all2_conv_all_nth simp del: upt_Suc)
qed

lemma files_loop_records:
  "files_loop e this files seen w acc = (Inr recs, seen', w') \<Longrightarrow>
   \<exists>rss. recs = acc @ concat rss \<and>
         list_all2 (derivatives_of e this)
           (filter (\<lambda>f. startsWith (mimetype f) ''image/'') files) rss"
proof (induction files arbitrary: seen w acc)
  case Nil
  then show ?case by simp
next
  case (Cons f files)
  show ?case
  proof (cases "startsWith (mimetype f) ''image/''")
    case True
    with Cons.prems obtain rs f1 w1 where
      p: "processImage e this f w = (Inr rs, f1, w1)" and
      rest: "files_loop e this files (seen @ [f1]) w1 (acc @ rs) = (Inr recs, seen', w')"
      by (auto split: prod.splits sum.splits)
    from Cons.IH [OF rest] obtain rss where
      "recs = (acc @ rs) @ concat rss"
      "list_all2 (derivatives_of e this)
         (filter (\<lambda>f. startsWith (mimetype f) ''image/'') files) rss"
      by blast
    with processImage_derivatives [OF p] True
    have "recs = acc @ concat (rs # rss) \<and>
          list_all2 (derivatives_of e this)
            (filter (\<lambda>f. startsWith (mimetype f) ''image/'') (f # files)) (rs # rss)"
      by simp
    then show ?thesis by blast
  next
    case False
    with Cons.prems Cons.IH show ?thesis
      by (simp add: Let_def)
  qed
qed

lemma files_loop_processed:
  "files_loop e this files seen w acc = (Inr recs, seen', w') \<Longrightarrow>
   \<exists>new. seen' = seen @ new \<and>
         list_all2 (\<lambda>f f'. \<not> startsWith (mimetype f) ''image/'' \<longrightarrow> passthrough_named e f f')
           files new"
proof (induction files arbitrary: seen w acc)
  case Nil
  then show ?case by simp
next
  case (Cons f files)
  show ?case
  proof (cases "startsWith (mimetype f) ''image/''")
    case True
    with Cons.prems obtain rs f1 w1 where
      rest: "files_loop e this files (seen @ [f1]) w1 (acc @ rs) = (Inr recs, seen', w')"
      by (auto split: prod.splits sum.splits)
    from Cons.IH [OF rest] obtain new where
      "seen' = (seen @ [f1]) @ new"
      "list_all2 (\<lambda>f f'. \<not> startsWith (mimetype f) ''image/'' \<longrightarrow> passthrough_named e f f')
         files new"
      by blast
    with True
    have "seen' = seen @ (f1 # new) \<and>
          list_all2 (\<lambda>f f'. \<not> startsWith (mimetype f) ''image/'' \<longrightarrow> passthrough_named e f f')
            (f # files) (f1 # new)"
      by simp
    then show ?thesis by blast
  next
    case False
    let ?f1 = "f\<lparr>filename := Some (fieldname f @ ''_'' @ num_str (unix e (reads w)) @ ''.''
                       @ last (split_on CHR ''.'' (originalname f))),
                  contenttype := Some (mimetype f)\<rparr>"
    from Cons.prems False have
      rest: "files_loop e this files (seen @ [?f1]) (w\<lparr>reads := Suc (reads w)\<rparr>) acc
               = (Inr recs, seen', w')"
      by (simp add: Let_def pop_split_on)
    from Cons.IH [OF rest] obtain new where
      "seen' = (seen @ [?f1]) @ new"
      "list_all2 (\<lambda>f f'. \<not> startsWith (mimetype f) ''image/'' \<longrightarrow> passthrough_named e f f')
         files new"
      by blast
    moreover have "passthrough_named e f ?f1"
      unfolding passthrough_named_def by blast
    ultimately
    have "seen' = seen @ (?f1 # new) \<and>
          list_all2 (\<lambda>f f'. \<not> startsWith (mimetype f) ''image/'' \<longrightarrow> passthrough_named e f f')
            (f # files) (?f1 # new)"
      by simp
    then show ?thesis by blast
  qed
qed

lemma derivatives_of_mimetype:
  "derivatives_of e this f rs \<Longrightarrow> r \<in> set rs \<Longrightarrow> mimetype r = mimetype f"
  by (cases "fileResizeRatio this")
     (auto simp: derivatives_of_def plain_record_def sized_record_def Let_def
        list_all2_conv_all_nth in_set_conv_nth)

lemma uploadFiles_success:
  assumes "uploadFiles e this req w = Some out" and "callback out = Success recs code"
  shows "\<exists>seen w1. files_loop e this (parts req) [] w [] = (Inr recs, seen, w1)
           \<and> processed out = seen \<and> after out = w1 \<and> code = 200"
proof -
  from assms obtain files where
    u: "upload_any this (parts req) (broken req) [] = Some (Inr files)"
    by (auto simp: uploadFiles_def split: option.splits sum.splits prod.splits)
  then have "files = parts req"
    using upload_any_files by fastforce
  with u assms show ?thesis
    by (auto simp: uploadFiles_def split: option.splits sum.splits prod.splits)
qed

subsection \<open>The concrete setting, evaluated\<close>

lemmas example_defs = example_env_def example_options_def example_png_def example_world_def
  plain_options_def example_pdf_def example_exe_def example_upper_def constructor_def

lemmas run_defs = processImage_def resizeImage_def compressAndResizeImage_def compressImage_def
  toFile_def file_data_def resolve_def num_str_def dec_nat.simps Let_def

lemma example_sized:
  "processImage example_env (constructor example_env example_options) example_png example_world =
     (Inr [\<lparr>fieldname = ''avatar'', originalname = ''me.png'', encoding = ''7bit'',
             mimetype = ''image/png'', filename = Some ''avatar_100x100_1700000001.jpeg'',
             destination = Some
               ''/srv/app/node_modules/smart-optimizer/dist/public/img/avatar_100x100_1700000001.jpeg''\<rparr>,
           \<lparr>fieldname = ''avatar'', originalname = ''me.png'', encoding = ''7bit'',
             mimetype = ''image/png'', filename = Some ''avatar_200x200_1700000002.jpeg'',
             destination = Some
               ''/srv/app/node_modules/smart-optimizer/dist/public/img/avatar_200x200_1700000002.jpeg''\<rparr>],
      example_png\<lparr>filename := Some ''avatar_200x200_1700000002.jpeg'',
        destination := Some
          ''/srv/app/node_modules/smart-optimizer/dist/public/img/avatar_200x200_1700000002.jpeg'',
        buffer := [0xFF, 0xD8, 0xFF, 0xD9]\<rparr>,
      \<lparr>reads = 3,
        disk = [(''/srv/app/node_modules/smart-optimizer/dist/public/img/avatar_100x100_1700000001.jpeg'',
                 [0xFF, 0xD8, 0xFF, 0xD9]),
                (''/srv/app/node_modules/smart-optimizer/dist/public/img/avatar_200x200_1700000002.jpeg'',
                 [0xFF, 0xD8, 0xFF, 0xD9])]\<rparr>)"
  by (simp add: example_defs run_defs)

lemma example_codec_total: "codec_total example_env"
  by (simp add: codec_total_def example_env_def)

lemmas upload_defs = uploadFiles_def fileFilter_def group_test_def literal_body_def metachars_def
  pop_def mixed_options_def example_request_def rejected_request_def

lemma example_upload:
  "uploadFiles example_env (constructor example_env mixed_options) example_request example_world =
     Some \<lparr>callback = Success
            [\<lparr>fieldname = ''avatar'', originalname = ''me.png'', encoding = ''7bit'',
               mimetype = ''image/png'', filename = Some ''avatar_100x100_1700000001.jpeg'',
               destination = Some
                 ''/srv/app/node_modules/smart-optimizer/dist/public/img/avatar_100x100_1700000001.jpeg''\<rparr>,
             \<lparr>fieldname = ''avatar'', originalname = ''me.png'', encoding = ''7bit'',
               mimetype = ''image/png'', filename = Some ''avatar_200x200_1700000002.jpeg'',
               destination = Some
                 ''/srv/app/node_modules/smart-optimizer/dist/public/img/avatar_200x200_1700000002.jpeg''\<rparr>,
             \<lparr>fieldname = ''banner'', originalname = ''me.png'', encoding = ''7bit'',
               mimetype = ''image/png'', filename = Some ''banner_100x100_1700000005.jpeg'',
               destination = Some
                 ''/srv/app/node_modules/smart-optimizer/dist/public/img/banner_100x100_1700000005.jpeg''\<rparr>,
             \<lparr>fieldname = ''banner'', originalname = ''me.png'', encoding = ''7bit'',
               mimetype = ''image/png'', filename = Some ''banner_200x200_1700000006.jpeg'',
               destination = Some
                 ''/srv/app/node_modules/smart-optimizer/dist/public/img/banner_200x200_1700000006.jpeg''\<rparr>]
            200,
          processed =
            [example_png\<lparr>filename := Some ''avatar_200x200_1700000002.jpeg'',
               destination := Some
                 ''/srv/app/node_modules/smart-optimizer/dist/public/img/avatar_200x200_1700000002.jpeg'',
               buffer := [0xFF, 0xD8, 0xFF, 0xD9]\<rparr>,
             example_pdf\<lparr>filename := Some ''doc_1700000003.pdf'',
               contenttype := Some ''application/pdf''\<rparr>,
             example_png\<lparr>fieldname := ''banner'',
               filename := Some ''banner_200x200_1700000006.jpeg'',
               destination := Some
                 ''/srv/app/node_modules/smart-optimizer/dist/public/img/banner_200x200_1700000006.jpeg'',
               buffer := [0xFF, 0xD8, 0xFF, 0xD9]\<rparr>],
          after =
            \<lparr>reads = 7,
              disk =
                [(''/srv/app/node_modules/smart-optimizer/dist/public/img/avatar_100x100_1700000001.jpeg'',
                  [0xFF, 0xD8, 0xFF, 0xD9]),
                 (''/srv/app/node_modules/smart-optimizer/dist/public/img/avatar_200x200_1700000002.jpeg'',
                  [0xFF, 0xD8, 0xFF, 0xD9]),
                 (''/srv/app/node_modules/smart-optimizer/dist/public/img/banner_100x100_1700000005.jpeg'',
                  [0xFF, 0xD8, 0xFF, 0xD9]),
                 (''/srv/app/node_modules/smart-optimizer/dist/public/img/banner_200x200_1700000006.jpeg'',
                  [0xFF, 0xD8, 0xFF, 0xD9])]\<rparr>\<rparr>"
  by (simp add: example_defs run_defs upload_defs)

subsection \<open>The branch without compression and without ratios\<close>

lemma passthrough_written:
  assumes "\<not> fileCompression this" and "fileResizeRatio this = None"
    and "dest = resolve (cwd e) [basePath this, localPath this,
                  fieldname file @ ''_'' @ num_str (unix e (reads w)) @ ''.jpeg'']"
    and "processImage e this file w = (Inr recs, file', w')"
  shows "\<exists>written. sharp_toFile e (buffer file) dest = Inr written \<and>
                   recs = [plain_record e this file (unix e (reads w))] \<and>
                   disk w' = disk w @ [(dest, written)]"
  using assms
  by (auto simp: processImage_def Let_def toFile_def file_data_def plain_record_def
        split: sum.splits)

lemma jpeg_by_extensionD:
  "jpeg_by_extension e \<Longrightarrow> sharp_toFile e b p = Inr out \<Longrightarrow> suffix ''.jpeg'' p \<Longrightarrow>
   prefix jpeg_soi out"
  unfolding jpeg_by_extension_def by blast

lemma decoding_env_by_extension: "jpeg_by_extension decoding_env"
  by (auto simp: jpeg_by_extension_def decoding_env_def jpeg_soi_def split: if_splits)

lemma pixel_png_not_jpeg: "\<not> prefix jpeg_soi (buffer pixel_png)"
  by (simp add: jpeg_soi_def pixel_png_def)

lemma pixel_plain:
  "processImage decoding_env (constructor decoding_env plain_options) pixel_png example_world =
     (Inr [\<lparr>fieldname = ''avatar'', originalname = ''pixel.png'', encoding = ''7bit'',
             mimetype = ''image/png'', filename = Some ''avatar_1700000000.jpeg'',
             destination = Some ''/data/public/img/avatar_1700000000.jpeg''\<rparr>],
      pixel_png\<lparr>filename := Some ''avatar_1700000000.jpeg'',
        destination := Some ''/data/public/img/avatar_1700000000.jpeg''\<rparr>,
      \<lparr>reads = 1,
        disk = [(''/data/public/img/avatar_1700000000.jpeg'', [0xFF, 0xD8, 0xFF, 0xD9])]\<rparr>)"
  by (simp add: example_defs run_defs decoding_env_def pixel_png_def png_signature_def
        jpeg_soi_def suffix_to_prefix)

section \<open>The claims\<close>

text \<open>
  \<^bold>\<open>C1.\<close> For an image part, \<^verbatim>\<open>processImage\<close> returns as many records as the configured
  \<^verbatim>\<open>fileResizeRatio\<close> has entries, and exactly one when none is configured, whatever
  \<^verbatim>\<open>fileCompression\<close> is; and it does return when the image library does not fail.
\<close>

theorem processImage_record_count:
  "(fst (processImage e (constructor e options) file w) = Inr recs \<longrightarrow>
      length recs = (case opt_fileResizeRatio options of
                       Some sizes \<Rightarrow> length sizes
                     | None \<Rightarrow> 1))
   \<and> (codec_total e \<longrightarrow> (\<exists>rs. fst (processImage e (constructor e options) file w) = Inr rs))"
proof (intro conjI impI)
  assume "fst (processImage e (constructor e options) file w) = Inr recs"
  from processImage_records [OF this]
  have "length recs = (case fileResizeRatio (constructor e options) of
                         Some sizes \<Rightarrow> length sizes
                       | None \<Rightarrow> 1)"
    by (cases "fileResizeRatio (constructor e options)") (simp_all del: upt_Suc)
  then show "length recs = (case opt_fileResizeRatio options of
                         Some sizes \<Rightarrow> length sizes
                       | None \<Rightarrow> 1)"
    by (simp add: constructor_def)
next
  assume "codec_total e"
  then show "\<exists>rs. fst (processImage e (constructor e options) file w) = Inr rs"
    by (rule processImage_total)
qed

text \<open>With the options of the README the PNG of the example gives two records.\<close>

theorem processImage_record_count_witness:
  "fst (processImage example_env (constructor example_env example_options) example_png
         example_world)
     = Inr [sized_record example_env (constructor example_env example_options) example_png
              (100, 100) 1700000001,
            sized_record example_env (constructor example_env example_options) example_png
              (200, 200) 1700000002]
   \<and> length [sized_record example_env (constructor example_env example_options) example_png
                (100, 100) 1700000001,
              sized_record example_env (constructor example_env example_options) example_png
                (200, 200) 1700000002] = 2
   \<and> codec_total example_env"
  using processImage_record_count [of example_env example_options example_png example_world]
    example_codec_total
  by (simp add: example_sized) (simp add: example_defs sized_record_def run_defs)

text \<open>
  \<^bold>\<open>C8.\<close> The record of the \<open>j\<close>-th ratio \<open>(width, height)\<close> is named
  \<^verbatim>\<open>{field}_{width}x{height}_{timestamp}.jpeg\<close>, the timestamp being the reading of the
  clock made for that ratio; without ratios the one record is named
  \<^verbatim>\<open>{field}_{timestamp}.jpeg\<close>, with the reading made on entry.
\<close>

theorem processImage_names:
  assumes "fst (processImage e this file w) = Inr recs"
  shows "case fileResizeRatio this of
           Some sizes \<Rightarrow>
             length recs = length sizes \<and>
             (\<forall>j<length sizes.
                filename (recs ! j) =
                  Some (fieldname file @ ''_'' @ num_str (fst (sizes ! j)) @ ''x''
                        @ num_str (snd (sizes ! j)) @ ''_''
                        @ num_str (unix e (Suc (reads w) + j)) @ ''.jpeg''))
         | None \<Rightarrow>
             map filename recs
               = [Some (fieldname file @ ''_'' @ num_str (unix e (reads w)) @ ''.jpeg'')]"
proof (cases "fileResizeRatio this")
  case None
  with processImage_records [OF assms] show ?thesis
    by (simp add: plain_record_def Let_def)
next
  case (Some sizes)
  with processImage_records [OF assms]
  have r: "recs = map (\<lambda>(sz, k). sized_record e this file sz (unix e k))
                    (zip sizes [Suc (reads w) ..< Suc (reads w) + length sizes])"
    by simp
  have "length recs = length sizes"
    unfolding r by (simp del: upt_Suc)
  moreover have "filename (recs ! j) =
                  Some (fieldname file @ ''_'' @ num_str (fst (sizes ! j)) @ ''x''
                        @ num_str (snd (sizes ! j)) @ ''_''
                        @ num_str (unix e (Suc (reads w) + j)) @ ''.jpeg'')"
    if "j < length sizes" for j
    unfolding r using that
    by (simp add: sized_record_def Let_def del: upt_Suc)
  ultimately show ?thesis
    by (simp add: Some)
qed

text \<open>The second record of the example is \<^verbatim>\<open>avatar_200x200_1700000002.jpeg\<close>.\<close>

theorem processImage_names_witness:
  "fst (processImage example_env (constructor example_env example_options) example_png
         example_world)
     = Inr [sized_record example_env (constructor example_env example_options) example_png
              (100, 100) 1700000001,
            sized_record example_env (constructor example_env example_options) example_png
              (200, 200) 1700000002]
   \<and> filename (sized_record example_env (constructor example_env example_options) example_png
                  (200, 200) 1700000002)
       = Some ''avatar_200x200_1700000002.jpeg''"
  using processImage_names [of example_env "constructor example_env example_options"
          example_png example_world]
  by (simp add: example_sized) (simp add: example_defs sized_record_def run_defs)

text \<open>
  \<^bold>\<open>C2\<close> (as amended). Without compression and without ratios \<^verbatim>\<open>processImage\<close>
  applies no operation to the buffer: it hands the original buffer to
  \<^verbatim>\<open>sharp(file.buffer).toFile(file.destination)\<close> and returns exactly one record when
  that succeeds, the error when it fails. The destination ends in \<^verbatim>\<open>.jpeg\<close>: under a
  library that encodes by the extension of the destination the bytes written are a JPEG
  stream, and they differ from the input whenever the input is not one.
\<close>

theorem processImage_passthrough:
  assumes "\<not> fileCompression this" and "fileResizeRatio this = None"
    and "dest = resolve (cwd e) [basePath this, localPath this,
                  fieldname file @ ''_'' @ num_str (unix e (reads w)) @ ''.jpeg'']"
  shows "processImage e this file w =
           (case sharp_toFile e (buffer file) dest of
              Inl err \<Rightarrow>
                (Inl err,
                 file\<lparr>filename := Some (fieldname file @ ''_'' @ num_str (unix e (reads w))
                                          @ ''.jpeg''),
                      destination := Some dest\<rparr>,
                 w\<lparr>reads := Suc (reads w)\<rparr>)
            | Inr written \<Rightarrow>
                (Inr [plain_record e this file (unix e (reads w))],
                 file\<lparr>filename := Some (fieldname file @ ''_'' @ num_str (unix e (reads w))
                                          @ ''.jpeg''),
                      destination := Some dest\<rparr>,
                 w\<lparr>reads := Suc (reads w), disk := disk w @ [(dest, written)]\<rparr>))
         \<and> suffix ''.jpeg'' dest
         \<and> (jpeg_by_extension e \<longrightarrow>
              (\<forall>written. sharp_toFile e (buffer file) dest = Inr written \<longrightarrow>
                 prefix jpeg_soi written \<and>
                 (\<not> prefix jpeg_soi (buffer file) \<longrightarrow> written \<noteq> buffer file)))"
proof (intro conjI impI allI)
  show "processImage e this file w =
           (case sharp_toFile e (buffer file) dest of
              Inl err \<Rightarrow>
                (Inl err,
                 file\<lparr>filename := Some (fieldname file @ ''_'' @ num_str (unix e (reads w))
                                          @ ''.jpeg''),
                      destination := Some dest\<rparr>,
                 w\<lparr>reads := Suc (reads w)\<rparr>)
            | Inr written \<Rightarrow>
                (Inr [plain_record e this file (unix e (reads w))],
                 file\<lparr>filename := Some (fieldname file @ ''_'' @ num_str (unix e (reads w))
                                          @ ''.jpeg''),
                      destination := Some dest\<rparr>,
                 w\<lparr>reads := Suc (reads w), disk := disk w @ [(dest, written)]\<rparr>))"
    using assms
    by (simp add: processImage_def Let_def toFile_def file_data_def plain_record_def
          split: sum.splits)
next
  show d: "suffix ''.jpeg'' dest"
    unfolding assms(3) by (rule passthrough_dest_jpeg)
  fix written
  assume j: "jpeg_by_extension e" and t: "sharp_toFile e (buffer file) dest = Inr written"
  from jpeg_by_extensionD [OF j t d] show p: "prefix jpeg_soi written" .
  assume "\<not> prefix jpeg_soi (buffer file)"
  with p show "written \<noteq> buffer file" by auto
qed

text \<open>The PNG of one pixel: one record, and a file that begins with the JPEG marker.\<close>

theorem processImage_passthrough_witness:
  "\<not> fileCompression (constructor decoding_env plain_options)
   \<and> fileResizeRatio (constructor decoding_env plain_options) = None
   \<and> jpeg_by_extension decoding_env
   \<and> \<not> prefix jpeg_soi (buffer pixel_png)
   \<and> sharp_toFile decoding_env (buffer pixel_png) ''/data/public/img/avatar_1700000000.jpeg''
       = Inr [0xFF, 0xD8, 0xFF, 0xD9]
   \<and> [0xFF, 0xD8, 0xFF, 0xD9] \<noteq> buffer pixel_png
   \<and> processImage decoding_env (constructor decoding_env plain_options) pixel_png example_world =
       (Inr [plain_record decoding_env (constructor decoding_env plain_options) pixel_png
               1700000000],
        pixel_png\<lparr>filename := Some ''avatar_1700000000.jpeg'',
          destination := Some ''/data/public/img/avatar_1700000000.jpeg''\<rparr>,
        \<lparr>reads = 1,
          disk = [(''/data/public/img/avatar_1700000000.jpeg'', [0xFF, 0xD8, 0xFF, 0xD9])]\<rparr>)"
proof -
  have r: "''/data/public/img/avatar_1700000000.jpeg'' =
        resolve (cwd decoding_env)
          [basePath (constructor decoding_env plain_options),
           localPath (constructor decoding_env plain_options),
           fieldname pixel_png @ ''_'' @ num_str (unix decoding_env (reads example_world))
             @ ''.jpeg'']"
    by (simp add: example_defs decoding_env_def pixel_png_def resolve_def num_str_def
          dec_nat.simps)
  have t: "sharp_toFile decoding_env (buffer pixel_png)
             ''/data/public/img/avatar_1700000000.jpeg'' = Inr [0xFF, 0xD8, 0xFF, 0xD9]"
    by (simp add: decoding_env_def pixel_png_def png_signature_def jpeg_soi_def
          suffix_to_prefix)
  have a: "\<not> fileCompression (constructor decoding_env plain_options)"
    and b: "fileResizeRatio (constructor decoding_env plain_options) = None"
    by (simp_all add: constructor_def plain_options_def)
  have u: "unix decoding_env (reads example_world) = 1700000000"
    by (simp add: decoding_env_def example_env_def example_world_def)
  have n: "fieldname pixel_png @ ''_'' @ num_str 1700000000 @ ''.jpeg'' = ''avatar_1700000000.jpeg''"
    by (simp add: pixel_png_def num_str_def dec_nat.simps)
  have ne: "[0xFF, 0xD8, 0xFF, 0xD9] \<noteq> buffer pixel_png"
    by (simp add: pixel_png_def)
  from processImage_passthrough [OF a b r]
  have "processImage decoding_env (constructor decoding_env plain_options) pixel_png example_world =
          (case sharp_toFile decoding_env (buffer pixel_png)
                  ''/data/public/img/avatar_1700000000.jpeg'' of
              Inl err \<Rightarrow>
                (Inl err,
                 pixel_png\<lparr>filename := Some (fieldname pixel_png @ ''_''
                                @ num_str (unix decoding_env (reads example_world)) @ ''.jpeg''),
                      destination := Some ''/data/public/img/avatar_1700000000.jpeg''\<rparr>,
                 example_world\<lparr>reads := Suc (reads example_world)\<rparr>)
            | Inr written \<Rightarrow>
                (Inr [plain_record decoding_env (constructor decoding_env plain_options) pixel_png
                        (unix decoding_env (reads example_world))],
                 pixel_png\<lparr>filename := Some (fieldname pixel_png @ ''_''
                                @ num_str (unix decoding_env (reads example_world)) @ ''.jpeg''),
                      destination := Some ''/data/public/img/avatar_1700000000.jpeg''\<rparr>,
                 example_world\<lparr>reads := Suc (reads example_world),
                   disk := disk example_world
                     @ [(''/data/public/img/avatar_1700000000.jpeg'', written)]\<rparr>))"
    by (rule conjunct1)
  then have p: "processImage decoding_env (constructor decoding_env plain_options) pixel_png
                  example_world =
       (Inr [plain_record decoding_env (constructor decoding_env plain_options) pixel_png
               1700000000],
        pixel_png\<lparr>filename := Some ''avatar_1700000000.jpeg'',
          destination := Some ''/data/public/img/avatar_1700000000.jpeg''\<rparr>,
        \<lparr>reads = 1,
          disk = [(''/data/public/img/avatar_1700000000.jpeg'', [0xFF, 0xD8, 0xFF, 0xD9])]\<rparr>)"
    unfolding t u n by (simp add: example_world_def)
  from a b decoding_env_by_extension pixel_png_not_jpeg t ne p show ?thesis
    by (intro conjI)
qed

text \<open>
  The claim as stated has the written bytes equal to the input. For the PNG of one pixel,
  under a library that encodes by the extension, one record is returned, one file is
  written, and its bytes are not those of the input.
\<close>

theorem passthrough_bytes_counterexample:
  "fst (processImage decoding_env (constructor decoding_env plain_options) pixel_png
          example_world)
     = Inr [plain_record decoding_env (constructor decoding_env plain_options) pixel_png
              1700000000]
   \<and> length (disk (snd (snd (processImage decoding_env (constructor decoding_env plain_options)
                                pixel_png example_world)))) = 1
   \<and> map snd (disk (snd (snd (processImage decoding_env (constructor decoding_env plain_options)
                                 pixel_png example_world))))
       \<noteq> [buffer pixel_png]"
proof -
  let ?M = "constructor decoding_env plain_options"
  let ?dest = "resolve (cwd decoding_env) [basePath ?M, localPath ?M,
                 fieldname pixel_png @ ''_'' @ num_str (unix decoding_env (reads example_world))
                   @ ''.jpeg'']"
  have a: "\<not> fileCompression ?M" and b: "fileResizeRatio ?M = None"
    by (simp_all add: constructor_def plain_options_def)
  obtain recs file' w' where
    p: "processImage decoding_env ?M pixel_png example_world = (Inr recs, file', w')"
    using pixel_plain by blast
  from passthrough_written [OF a b refl p] obtain written where
    t: "sharp_toFile decoding_env (buffer pixel_png) ?dest = Inr written" and
    r: "recs = [plain_record decoding_env ?M pixel_png
                  (unix decoding_env (reads example_world))]" and
    d: "disk w' = disk example_world @ [(?dest, written)]"
    by blast
  have "prefix jpeg_soi written"
    using decoding_env_by_extension t passthrough_dest_jpeg by (rule jpeg_by_extensionD)
  with pixel_png_not_jpeg have "written \<noteq> buffer pixel_png"
    by auto
  with p r d show ?thesis
    by (simp add: example_world_def decoding_env_def example_env_def)
qed

text \<open>
  \<^bold>\<open>C3.\<close> The destination of a record is to be
  \<^verbatim>\<open>resolve(basePath, localPath, fileName)\<close>. The two branches with ratios resolve against
  \<^verbatim>\<open>__dirname\<close> instead of \<^verbatim>\<open>basePath\<close>: with the base path \<^verbatim>\<open>/data\<close> the records
  of the example point under the directory of the module.
\<close>

theorem resize_destination_ignores_basePath:
  "map destination
     (case fst (processImage example_env (constructor example_env example_options) example_png
                  example_world) of
        Inr rs \<Rightarrow> rs
      | Inl err \<Rightarrow> [])
     = [Some ''/srv/app/node_modules/smart-optimizer/dist/public/img/avatar_100x100_1700000001.jpeg'',
        Some ''/srv/app/node_modules/smart-optimizer/dist/public/img/avatar_200x200_1700000002.jpeg'']
   \<and> resolve (cwd example_env)
         [basePath (constructor example_env example_options),
          localPath (constructor example_env example_options),
          ''avatar_100x100_1700000001.jpeg'']
       = ''/data/public/img/avatar_100x100_1700000001.jpeg''"
  by (simp add: example_sized) (simp add: example_defs resolve_def)

text \<open>
  \<^bold>\<open>C4\<close> (as amended). With an allow-list that is not empty and whose entries have no
  metacharacter of regular expressions, the default \<^verbatim>\<open>jpeg\<close>, \<^verbatim>\<open>jpg\<close>, \<^verbatim>\<open>png\<close> standing
  for an absent list, the filter accepts a part exactly when an entry is a substring of
  the MIME string or of the text after the last dot of the original name (the whole name
  when it has no dot), taken as it is, with no change of case.
\<close>

theorem fileFilter_substring:
  assumes "allowed = (case allowExtension this of Some l \<Rightarrow> l | None \<Rightarrow> [''jpeg'', ''jpg'', ''png''])"
    and "allowed \<noteq> []"
    and "\<forall>x\<in>set allowed. literal_body x \<and> CHR ''|'' \<notin> set x"
  shows "fileFilter this file =
           Some (if \<exists>x\<in>set allowed. sublist x (last (split_on CHR ''.'' (originalname file)))
                                     \<or> sublist x (mimetype file)
                 then Accept else Reject (ErrorObject [] 400))"
proof -
  have "fileFilter this file =
          (case (group_test (join ''|'' allowed) (last (split_on CHR ''.'' (originalname file))),
                 group_test (join ''|'' allowed) (mimetype file)) of
             (Some extname, Some mime) \<Rightarrow>
               Some (if mime \<or> extname then Accept else Reject (ErrorObject [] 400))
           | _ \<Rightarrow> None)"
    by (simp add: fileFilter_def assms(1) pop_split_on Let_def)
  then show ?thesis
    using assms(2,3) by (auto simp: group_test_entries)
qed


text \<open>The entry \<^verbatim>\<open>jp\<close> accepts \<^verbatim>\<open>photo.jpeg\<close>.\<close>

theorem fileFilter_substring_witness:
  "fileFilter (constructor example_env (example_options\<lparr>opt_allowExtension := Some [''jp'']\<rparr>))
     (example_upper\<lparr>originalname := ''photo.jpeg''\<rparr>) = Some Accept
   \<and> [''jp''] \<noteq> []
   \<and> literal_body ''jp'' \<and> CHR ''|'' \<notin> set ''jp''"
  using fileFilter_substring [of "[''jp'']"
          "constructor example_env (example_options\<lparr>opt_allowExtension := Some [''jp'']\<rparr>)"
          "example_upper\<lparr>originalname := ''photo.jpeg''\<rparr>"]
  by (simp add: example_defs literal_body_def metachars_def occurs_in_sublist [symmetric])

text \<open>
  The claim as stated matches the lowercase extension. \<^verbatim>\<open>fileFilter\<close> does not change
  the case: \<^verbatim>\<open>HOLIDAY.JPG\<close>, sent as \<^verbatim>\<open>application/octet-stream\<close>, is rejected under
  the default list, while the sentence of the specification accepts it.
\<close>

theorem fileFilter_lowercase_counterexample:
  "fileFilter (constructor example_env (example_options\<lparr>opt_allowExtension := None\<rparr>)) example_upper
     = Some (Reject (ErrorObject [] 400))
   \<and> spec_accepts (opt_allowExtension (example_options\<lparr>opt_allowExtension := None\<rparr>))
         example_upper"
  by (simp add: example_defs fileFilter_def group_test_def literal_body_def metachars_def
        pop_def spec_accepts_def toLowerCase_def)

text \<open>
  \<^bold>\<open>C10.\<close> An empty \<^verbatim>\<open>allowExtension\<close> is kept by the constructor and by the filter
  (an array is never falsy), the pattern is the empty group, and every part is accepted.
\<close>

theorem fileFilter_empty_allow_list: "fileFilter (constructor e (options\<lparr>opt_allowExtension := Some []\<rparr>)) file = Some Accept"
  by (simp add: fileFilter_def constructor_def group_test_def literal_body_def list_ex_iff pop_split_on
      occurs_in_sublist)

text \<open>An executable sent as \<^verbatim>\<open>application/octet-stream\<close> passes the empty list.\<close>

theorem fileFilter_empty_allow_list_witness:
  "fileFilter (constructor example_env (example_options\<lparr>opt_allowExtension := Some []\<rparr>))
     example_exe = Some Accept"
  using fileFilter_empty_allow_list [of example_env example_options example_exe] .

text \<open>
  \<^bold>\<open>C9\<close> (as amended). The constructor stores the \<^verbatim>\<open>imageQuality\<close> it is given as it
  is, whatever its value, and 80 when none is given: the values 1 and 100 are kept, and so
  is every value outside the range. The constructor has no path that rejects.
\<close>

theorem constructor_keeps_quality:
  "(opt_imageQuality options = Some q \<longrightarrow> imageQuality (constructor e options) = q)
   \<and> (opt_imageQuality options = None \<longrightarrow> imageQuality (constructor e options) = 80)"
  by (simp add: constructor_def)

text \<open>The two ends of the range, and the default.\<close>

theorem constructor_keeps_quality_witness:
  "imageQuality (constructor example_env (example_options\<lparr>opt_imageQuality := Some 1\<rparr>)) = 1
   \<and> imageQuality (constructor example_env (example_options\<lparr>opt_imageQuality := Some 100\<rparr>)) = 100
   \<and> imageQuality (constructor example_env plain_options) = 80"
  using constructor_keeps_quality [of "example_options\<lparr>opt_imageQuality := Some 1\<rparr>" 1 example_env]
    constructor_keeps_quality [of "example_options\<lparr>opt_imageQuality := Some 100\<rparr>" 100 example_env]
    constructor_keeps_quality [of plain_options 0 example_env]
  by (simp add: plain_options_def)

text \<open>
  The claim as stated has a quality outside the range clamped or the construction
  rejected. A quality of 500 gives a manager, and its quality is 500.
\<close>

theorem constructor_quality_counterexample:
  "\<not> (1 \<le> imageQuality (constructor example_env (example_options\<lparr>opt_imageQuality := Some 500\<rparr>))
      \<and> imageQuality (constructor example_env (example_options\<lparr>opt_imageQuality := Some 500\<rparr>))
          \<le> 100)"
  by (simp add: constructor_def)




text \<open>
  \<^bold>\<open>C7.\<close> The records of a successful call are the records of the image parts, one
  group after the other in the order of the parts in the request, and inside a group one
  record for each ratio in the order of the ratios.
\<close>

theorem uploadFiles_order:
  assumes "uploadFiles e this req w = Some out" and "callback out = Success recs code"
  shows "\<exists>rss. recs = concat rss \<and>
               list_all2 (derivatives_of e this)
                 (filter (\<lambda>f. startsWith (mimetype f) ''image/'') (parts req)) rss"
proof -
  from uploadFiles_success [OF assms] obtain seen w1 where
    "files_loop e this (parts req) [] w [] = (Inr recs, seen, w1)"
    by blast
  from files_loop_records [OF this] show ?thesis
    by simp
qed

text \<open>Two images around a PDF, two ratios: avatar before banner, 100 before 200.\<close>

theorem uploadFiles_order_witness:
  "\<exists>out recs.
     uploadFiles example_env (constructor example_env mixed_options) example_request example_world
       = Some out
     \<and> callback out = Success recs 200
     \<and> map filename recs
         = [Some ''avatar_100x100_1700000001.jpeg'', Some ''avatar_200x200_1700000002.jpeg'',
            Some ''banner_100x100_1700000005.jpeg'', Some ''banner_200x200_1700000006.jpeg'']
     \<and> (\<exists>rss. recs = concat rss \<and>
                list_all2 (derivatives_of example_env (constructor example_env mixed_options))
                  (filter (\<lambda>f. startsWith (mimetype f) ''image/'') (parts example_request)) rss)"
proof -
  obtain out recs where
    u: "uploadFiles example_env (constructor example_env mixed_options) example_request
          example_world = Some out" and
    c: "callback out = Success recs 200" and
    n: "map filename recs
         = [Some ''avatar_100x100_1700000001.jpeg'', Some ''avatar_200x200_1700000002.jpeg'',
            Some ''banner_100x100_1700000005.jpeg'', Some ''banner_200x200_1700000006.jpeg'']"
    using example_upload by simp
  from uploadFiles_order [OF u c] u c n show ?thesis
    by (intro exI [of _ out] exI [of _ recs]) simp
qed

text \<open>
  \<^bold>\<open>C6\<close> (as amended). In a successful call, the file object of each part that is not
  an image gets the name \<^verbatim>\<open>{field}_{timestamp}.{originalExtension}\<close> and its MIME type
  as content type, and no record is made for it: every record returned belongs to an
  image part.
\<close>

theorem uploadFiles_non_image:
  assumes "uploadFiles e this req w = Some out" and "callback out = Success recs code"
  shows "list_all2 (\<lambda>f f'. \<not> startsWith (mimetype f) ''image/'' \<longrightarrow> passthrough_named e f f')
           (parts req) (processed out)
         \<and> (\<forall>r\<in>set recs. startsWith (mimetype r) ''image/'')"
proof -
  from uploadFiles_success [OF assms] obtain seen w1 where
    l: "files_loop e this (parts req) [] w [] = (Inr recs, seen, w1)" and
    s: "processed out = seen"
    by blast
  from files_loop_processed [OF l] s
  have a: "list_all2 (\<lambda>f f'. \<not> startsWith (mimetype f) ''image/'' \<longrightarrow> passthrough_named e f f')
             (parts req) (processed out)"
    by simp
  from files_loop_records [OF l] obtain rss where
    r: "recs = concat rss" and
    d: "list_all2 (derivatives_of e this)
          (filter (\<lambda>f. startsWith (mimetype f) ''image/'') (parts req)) rss"
    by auto
  have "startsWith (mimetype r) ''image/''" if "r \<in> set recs" for r
  proof -
    from that r obtain rs where rs: "rs \<in> set rss" "r \<in> set rs"
      by auto
    then obtain i where i: "i < length rss" "rss ! i = rs"
      by (auto simp: in_set_conv_nth)
    let ?imgs = "filter (\<lambda>f. startsWith (mimetype f) ''image/'') (parts req)"
    from d i have dv: "derivatives_of e this (?imgs ! i) rs" and il: "i < length ?imgs"
      by (auto simp: list_all2_conv_all_nth)
    have m: "mimetype r = mimetype (?imgs ! i)"
      using dv rs(2) by (rule derivatives_of_mimetype)
    from il have "?imgs ! i \<in> set ?imgs"
      by (rule nth_mem)
    then have "startsWith (mimetype (?imgs ! i)) ''image/''"
      by simp
    with m show ?thesis by simp
  qed
  with a show ?thesis by blast
qed

text \<open>The PDF of the example request is named \<^verbatim>\<open>doc_1700000003.pdf\<close>.\<close>

theorem uploadFiles_non_image_witness:
  "\<exists>out recs.
     uploadFiles example_env (constructor example_env mixed_options) example_request example_world
       = Some out
     \<and> callback out = Success recs 200
     \<and> map filename (processed out)
         = [Some ''avatar_200x200_1700000002.jpeg'', Some ''doc_1700000003.pdf'',
            Some ''banner_200x200_1700000006.jpeg'']
     \<and> list_all2 (\<lambda>f f'. \<not> startsWith (mimetype f) ''image/'' \<longrightarrow>
                              passthrough_named example_env f f')
           (parts example_request) (processed out)
     \<and> (\<forall>r\<in>set recs. startsWith (mimetype r) ''image/'')"
proof -
  obtain out recs where
    u: "uploadFiles example_env (constructor example_env mixed_options) example_request
          example_world = Some out" and
    c: "callback out = Success recs 200" and
    n: "map filename (processed out)
         = [Some ''avatar_200x200_1700000002.jpeg'', Some ''doc_1700000003.pdf'',
            Some ''banner_200x200_1700000006.jpeg'']"
    using example_upload by simp
  from uploadFiles_non_image [OF u c] u c n show ?thesis
    by (intro exI [of _ out] exI [of _ recs]) simp
qed

text \<open>
  The claim as stated has one record returned for each part that is not an image. A
  request of one PDF succeeds with no record at all.
\<close>

theorem non_image_record_counterexample:
  "map_option callback
     (uploadFiles example_env (constructor example_env plain_options)
        \<lparr>parts = [example_pdf], broken = None\<rparr> example_world)
     = Some (Success [] 200)"
  by (simp add: example_defs run_defs upload_defs)

end
